theory Spec2Isabelle
  imports Main
begin

section \<open>Python values and errors\<close>

text \<open>
  The exceptions that the functions of \<^verbatim>\<open>slurm_utils.py\<close> can raise. A function that may
  raise returns \<open>error + 'a\<close>, with \<open>Inl\<close> for the exception.
\<close>

datatype error = IndexError | KeyError string | ValueError | ZeroDivisionError | TypeError

text \<open>Python's \<^verbatim>\<open>len\<close> returns an unbounded integer.\<close>

definition len :: "'a list \<Rightarrow> int" where
  "len xs = int (length xs)"

text \<open>
  \<^verbatim>\<open>functools.reduce(f, xs)\<close> without an initial value: the first element starts the
  accumulator, and an empty sequence raises \<^verbatim>\<open>TypeError\<close>.
\<close>

fun reduce :: "('a \<Rightarrow> 'a \<Rightarrow> 'a) \<Rightarrow> 'a list \<Rightarrow> error + 'a" where
  "reduce f [] = Inl TypeError"
| "reduce f (x # xs) = Inr (foldl f x xs)"

text \<open>\<^verbatim>\<open>operator.mul\<close> on integers.\<close>

definition mul :: "int \<Rightarrow> int \<Rightarrow> int" where
  "mul a b = a * b"

text \<open>
  Python's \<^verbatim>\<open>%\<close> and \<^verbatim>\<open>//\<close> on integers round towards minus infinity, as \<open>mod\<close> and
  \<open>div\<close> on \<open>int\<close> do, and raise \<^verbatim>\<open>ZeroDivisionError\<close> on a zero divisor.
\<close>

definition py_mod :: "int \<Rightarrow> int \<Rightarrow> error + int" where
  "py_mod a b = (if b = 0 then Inl ZeroDivisionError else Inr (a mod b))"

definition py_floordiv :: "int \<Rightarrow> int \<Rightarrow> error + int" where
  "py_floordiv a b = (if b = 0 then Inl ZeroDivisionError else Inr (a div b))"

text \<open>
  Indexing a tuple, \<^verbatim>\<open>pool[i]\<close>: a negative index counts from the end, and an index
  outside the tuple raises \<^verbatim>\<open>IndexError\<close>.
\<close>

definition tuple_getitem :: "'a list \<Rightarrow> int \<Rightarrow> error + 'a" where
  "tuple_getitem pool i =
     (let n = len pool; j = (if i < 0 then i + n else i)
      in if 0 \<le> j \<and> j < n then Inr (pool ! nat j) else Inl IndexError)"

section \<open>The combinatorial index engine\<close>

text \<open>
  \<^verbatim>\<open>count_product(lists)\<close>: the product of the lengths of the lists, and 1 for no
  lists at all.
\<close>

definition count_product :: "'a list list \<Rightarrow> error + int" where
  "count_product value_lists =
     (let lengths = map len value_lists
      in if len lengths = 0 then Inr 1 else reduce mul lengths)"

text \<open>
  The loop of \<^verbatim>\<open>nth_product\<close> over \<^verbatim>\<open>zip(pools, lengths)\<close>: each round appends
  \<^verbatim>\<open>pool[index % length]\<close> to \<^verbatim>\<open>result\<close> and divides \<^verbatim>\<open>index\<close> by \<^verbatim>\<open>length\<close>.
\<close>

fun nth_product_loop :: "'a list \<Rightarrow> int \<Rightarrow> ('a list \<times> int) list \<Rightarrow> error + 'a list" where
  "nth_product_loop result index [] = Inr result"
| "nth_product_loop result index ((pool, pool_len) # rest) =
     (case py_mod index pool_len of
        Inl e \<Rightarrow> Inl e
      | Inr r \<Rightarrow>
          (case tuple_getitem pool r of
             Inl e \<Rightarrow> Inl e
           | Inr x \<Rightarrow>
               (case py_floordiv index pool_len of
                  Inl e \<Rightarrow> Inl e
                | Inr q \<Rightarrow> nth_product_loop (result @ [x]) q rest)))"

text \<open>
  \<^verbatim>\<open>nth_product(index, lists)\<close>. A tuple is a list here, so \<^verbatim>\<open>map(tuple, ...)\<close> is the
  identity. The function returns the empty tuple for no lists before it looks at
  \<^verbatim>\<open>index\<close>.
\<close>

definition nth_product :: "int \<Rightarrow> 'a list list \<Rightarrow> error + 'a list" where
  "nth_product index value_lists =
     (let pools = rev value_lists;
          lengths = map len pools
      in if len lengths = 0 then Inr []
         else
           (case reduce mul lengths of
              Inl e \<Rightarrow> Inl e
            | Inr total_count \<Rightarrow>
                (let index' = (if index < 0 then index + total_count else index)
                 in if \<not> (0 \<le> index' \<and> index' < total_count) then Inl IndexError
                    else
                      (case nth_product_loop [] index' (zip pools lengths) of
                         Inl e \<Rightarrow> Inl e
                       | Inr result \<Rightarrow> Inr (rev result)))))"

text \<open>
  The standard cartesian product of a list of lists, as \<^verbatim>\<open>itertools.product\<close>
  enumerates it: lexicographic, the first list most significant, the last list varying
  fastest.
\<close>

primrec itertools_product :: "'a list list \<Rightarrow> 'a list list" where
  "itertools_product [] = [[]]"
| "itertools_product (xs # xss) =
     concat (map (\<lambda>x. map (\<lambda>p. x # p) (itertools_product xss)) xs)"

text \<open>
  The decoding as the specification words it: reverse the lists, take their lengths, let
  the total be the product of the lengths (1 for no lists), wrap a negative index
  around, refuse an index outside \<open>[0, total)\<close>, then for each reversed list take
  \<open>index mod length\<close> as the position in that list and divide the index by the length,
  and reverse the collected values back.
\<close>

fun decode_step :: "int \<times> 'a list \<Rightarrow> 'a list \<times> int \<Rightarrow> int \<times> 'a list" where
  "decode_step (index, result) (pool, n) = (index div n, result @ [pool ! nat (index mod n)])"

definition decode :: "int \<Rightarrow> 'a list list \<Rightarrow> error + 'a list" where
  "decode index value_lists =
     (let reversed = rev value_lists;
          lengths = map len reversed;
          total_count = prod_list lengths;
          index' = (if index < 0 then index + total_count else index)
      in if 0 \<le> index' \<and> index' < total_count
         then Inr (rev (snd (foldl decode_step (index', []) (zip reversed lengths))))
         else Inl IndexError)"

section \<open>Ordered dictionaries\<close>

text \<open>
  A Python \<^verbatim>\<open>dict\<close> or \<^verbatim>\<open>OrderedDict\<close> is a list of key-value pairs in insertion
  order, its keys distinct.
\<close>

type_synonym ('k, 'v) dict = "('k \<times> 'v) list"

definition dict_keys :: "('k, 'v) dict \<Rightarrow> 'k list" where
  "dict_keys d = map fst d"

definition dict_values :: "('k, 'v) dict \<Rightarrow> 'v list" where
  "dict_values d = map snd d"

text \<open>
  \<^verbatim>\<open>d[k] = v\<close>: a key that is present keeps its position and takes the new value, a
  new key goes to the end.
\<close>

fun dict_set :: "('k, 'v) dict \<Rightarrow> 'k \<Rightarrow> 'v \<Rightarrow> ('k, 'v) dict" where
  "dict_set [] k v = [(k, v)]"
| "dict_set ((k', v') # d) k v =
     (if k' = k then (k', v) # d else (k', v') # dict_set d k v)"

text \<open>Looking a key up; \<open>None\<close> stands for the \<^verbatim>\<open>KeyError\<close> of \<^verbatim>\<open>d[k]\<close>.\<close>

definition dict_get :: "('k, 'v) dict \<Rightarrow> 'k \<Rightarrow> 'v option" where
  "dict_get d k = map_of d k"

text \<open>\<^verbatim>\<open>d.update(other)\<close> stores the items of \<^verbatim>\<open>other\<close> one after the other.\<close>

definition dict_update :: "('k, 'v) dict \<Rightarrow> ('k \<times> 'v) list \<Rightarrow> ('k, 'v) dict" where
  "dict_update d other = foldl (\<lambda>acc (k, v). dict_set acc k v) d other"

text \<open>
  \<^verbatim>\<open>dict(pairs)\<close> and a dict comprehension build the dictionary by storing the pairs
  in order.
\<close>

definition py_dict :: "('k \<times> 'v) list \<Rightarrow> ('k, 'v) dict" where
  "py_dict pairs = dict_update [] pairs"

section \<open>The parameter file\<close>

text \<open>
  What \<^verbatim>\<open>validate_param_dict\<close> asks of a key and of a value: whether the key is a
  \<^verbatim>\<open>str\<close> and whether the value is a \<^verbatim>\<open>list\<close>. Any other object is kept as it is,
  of a type the model does not look into.
\<close>

datatype 'k key_obj = is_str: StrKey string | OtherKey 'k

datatype ('a, 'v) val_obj = is_list: ListVal "'a list" | OtherVal 'v

text \<open>The two warnings of \<^verbatim>\<open>validate_param_dict\<close>, with the entry they report.\<close>

datatype ('k, 'a, 'v) param_warning =
    Invalid_key "'k key_obj" "('a, 'v) val_obj"
  | Invalid_value "'k key_obj" "('a, 'v) val_obj"

text \<open>
  The loop of \<^verbatim>\<open>validate_param_dict\<close> over \<^verbatim>\<open>dict_lists.items()\<close>, with the output
  dictionary and the warnings given so far.
\<close>

fun validate_loop ::
  "(string, 'a list) dict \<Rightarrow> ('k, 'a, 'v) param_warning list \<Rightarrow>
   ('k key_obj \<times> ('a, 'v) val_obj) list \<Rightarrow>
   (string, 'a list) dict \<times> ('k, 'a, 'v) param_warning list" where
  "validate_loop outdict warnings [] = (outdict, warnings)"
| "validate_loop outdict warnings ((key, val) # items) =
     (case key of
        OtherKey _ \<Rightarrow> validate_loop outdict (warnings @ [Invalid_key key val]) items
      | StrKey k \<Rightarrow>
          (case val of
             OtherVal _ \<Rightarrow> validate_loop outdict (warnings @ [Invalid_value key val]) items
           | ListVal xs \<Rightarrow> validate_loop (dict_set outdict k xs) warnings items))"

definition validate_param_dict ::
  "('k key_obj \<times> ('a, 'v) val_obj) list \<Rightarrow>
   (string, 'a list) dict \<times> ('k, 'a, 'v) param_warning list" where
  "validate_param_dict dict_lists = validate_loop [] [] dict_lists"

text \<open>
  \<^verbatim>\<open>read_paramfile\<close>, from the mapping that \<^verbatim>\<open>read_toml\<close> has parsed out of the file:
  reading and parsing the file are outside the model.
\<close>

definition read_paramfile ::
  "('k key_obj \<times> ('a, 'v) val_obj) list \<Rightarrow>
   (string, 'a list) dict \<times> ('k, 'a, 'v) param_warning list" where
  "read_paramfile toml_dict = validate_param_dict toml_dict"

definition get_count :: "(string, 'a list) dict \<Rightarrow> error + int" where
  "get_count params = count_product (dict_values params)"

section \<open>The scheduler configuration\<close>

text \<open>
  \<^verbatim>\<open>override.split("=", maxsplit=1)\<close>: the text before the first \<^verbatim>\<open>=\<close> and the text
  after it, or the whole string alone when it has no \<^verbatim>\<open>=\<close>.
\<close>

definition split_maxsplit1 :: "char \<Rightarrow> string \<Rightarrow> string list" where
  "split_maxsplit1 sep s =
     (if sep \<in> set s
      then [takeWhile (\<lambda>c. c \<noteq> sep) s, tl (dropWhile (\<lambda>c. c \<noteq> sep) s)]
      else [s])"

datatype override_warning = Not_key_value string

fun overrides_loop ::
  "(string, string) dict \<Rightarrow> override_warning list \<Rightarrow> string list \<Rightarrow>
   (string, string) dict \<times> override_warning list" where
  "overrides_loop out warnings [] = (out, warnings)"
| "overrides_loop out warnings (override # rest) =
     (let keyval = split_maxsplit1 (CHR ''='') override
      in if len keyval < 2
         then overrides_loop out (warnings @ [Not_key_value override]) rest
         else overrides_loop (dict_set out (keyval ! 0) (keyval ! 1)) warnings rest)"

definition overrides_to_dict ::
  "string list \<Rightarrow> (string, string) dict \<times> override_warning list" where
  "overrides_to_dict overrides = overrides_loop [] [] overrides"

text \<open>
  \<^verbatim>\<open>get_sbatch_config\<close>, from the mapping parsed out of the configuration file. The keys
  of a TOML table are strings, on which \<^verbatim>\<open>str\<close> is the identity; \<open>str_of\<close> is \<^verbatim>\<open>str\<close>
  on the values. \<open>None\<close> for the overrides is Python's \<^verbatim>\<open>None\<close>.
\<close>

definition get_sbatch_config ::
  "('v \<Rightarrow> string) \<Rightarrow> (string, 'v) dict \<Rightarrow> string list option \<Rightarrow>
   (string, string) dict \<times> override_warning list" where
  "get_sbatch_config str_of config_base overrides =
     (let config = py_dict (map (\<lambda>(k, v). (k, str_of v)) config_base)
      in case overrides of
           None \<Rightarrow> (config, [])
         | Some given \<Rightarrow>
             (case overrides_to_dict given of
                (overrides_dict, warnings) \<Rightarrow> (dict_update config overrides_dict, warnings)))"

section \<open>Format strings\<close>

text \<open>
  \<^verbatim>\<open>str(n)\<close> for an integer: its decimal digits, after a minus sign when it is negative.
\<close>

definition digit_char :: "nat \<Rightarrow> char" where
  "digit_char d = ''0123456789'' ! d"

fun str_nat :: "nat \<Rightarrow> string" where
  "str_nat n = (if n < 10 then [digit_char n] else str_nat (n div 10) @ [digit_char (n mod 10)])"

declare str_nat.simps [simp del]

definition str_int :: "int \<Rightarrow> string" where
  "str_int i = (if i < 0 then CHR ''-'' # str_nat (nat (- i)) else str_nat (nat i))"

definition is_digit :: "char \<Rightarrow> bool" where
  "is_digit c = (c \<in> set ''0123456789'')"

text \<open>
  \<^verbatim>\<open>str.format_map(mapping)\<close> and \<^verbatim>\<open>str.format(**mapping)\<close> read the format string from
  left to right. \<open>build_string\<close> copies literal text: \<^verbatim>\<open>{{\<close> and \<^verbatim>\<open>}}\<close> stand for one
  brace, a single \<^verbatim>\<open>}\<close> and a \<^verbatim>\<open>{\<close> at the end raise \<^verbatim>\<open>ValueError\<close>, any other \<^verbatim>\<open>{\<close>
  opens a replacement field. \<open>parse_field\<close> collects the field name up to the closing
  \<^verbatim>\<open>}\<close>; a \<^verbatim>\<open>{\<close> inside it or the end of the string raise \<^verbatim>\<open>ValueError\<close>. A name
  that is looked up and missing raises \<^verbatim>\<open>KeyError\<close> with the name, at once: text to
  the right of the field is not read. The value found is formatted with an empty format
  specification, which is \<open>str_of\<close>.

  A field with a conversion (\<^verbatim>\<open>!\<close>), a format specification (\<^verbatim>\<open>:\<close>), an index
  (\<^verbatim>\<open>[\<close>) or an attribute (\<^verbatim>\<open>.\<close>), and a field whose name is empty or starts with a
  digit (a positional argument), depend on the object protocol and on the positional
  arguments of the call. They are left to the parameter \<open>extended\<close>, which gets the
  mapping, the name read so far and the input from the current character on, and gives
  the outcome for the rest of the string.
\<close>

fun build_string ::
    "(string \<Rightarrow> 'a option) \<Rightarrow> ('a \<Rightarrow> string) \<Rightarrow>
     ((string \<Rightarrow> 'a option) \<Rightarrow> string \<Rightarrow> string \<Rightarrow> error + string) \<Rightarrow>
     string \<Rightarrow> error + string"
  and parse_field ::
    "(string \<Rightarrow> 'a option) \<Rightarrow> ('a \<Rightarrow> string) \<Rightarrow>
     ((string \<Rightarrow> 'a option) \<Rightarrow> string \<Rightarrow> string \<Rightarrow> error + string) \<Rightarrow>
     string \<Rightarrow> string \<Rightarrow> error + string"
  where
  "build_string kwargs str_of extended [] = Inr []"
| "build_string kwargs str_of extended (c # cs) =
     (if c = CHR ''}'' then
        (case cs of
           [] \<Rightarrow> Inl ValueError
         | c' # cs' \<Rightarrow>
             if c' = CHR ''}'' then
               (case build_string kwargs str_of extended cs' of
                  Inl e \<Rightarrow> Inl e
                | Inr out \<Rightarrow> Inr (c # out))
             else Inl ValueError)
      else if c = CHR ''{'' then
        (case cs of
           [] \<Rightarrow> Inl ValueError
         | c' # cs' \<Rightarrow>
             if c' = CHR ''{'' then
               (case build_string kwargs str_of extended cs' of
                  Inl e \<Rightarrow> Inl e
                | Inr out \<Rightarrow> Inr (c # out))
             else parse_field kwargs str_of extended [] cs)
      else
        (case build_string kwargs str_of extended cs of
           Inl e \<Rightarrow> Inl e
         | Inr out \<Rightarrow> Inr (c # out)))"
| "parse_field kwargs str_of extended name [] = Inl ValueError"
| "parse_field kwargs str_of extended name (c # cs) =
     (if c = CHR ''{'' then Inl ValueError
      else if c = CHR ''}'' then
        (if name = [] \<or> is_digit (hd name) \<or> CHR ''.'' \<in> set name
         then extended kwargs name (c # cs)
         else
           (case kwargs name of
              None \<Rightarrow> Inl (KeyError name)
            | Some v \<Rightarrow>
                (case build_string kwargs str_of extended cs of
                   Inl e \<Rightarrow> Inl e
                 | Inr out \<Rightarrow> Inr (str_of v @ out))))
      else if c = CHR ''['' \<or> c = CHR '':'' \<or> c = CHR ''!''
      then extended kwargs name (c # cs)
      else parse_field kwargs str_of extended (name @ [c]) cs)"

text \<open>\<^verbatim>\<open>command.format_map(mapping)\<close> with a dictionary.\<close>

definition format_map ::
  "('a \<Rightarrow> string) \<Rightarrow> ((string \<Rightarrow> 'a option) \<Rightarrow> string \<Rightarrow> string \<Rightarrow> error + string) \<Rightarrow>
   string \<Rightarrow> (string, 'a) dict \<Rightarrow> error + string" where
  "format_map str_of extended template mapping =
     build_string (dict_get mapping) str_of extended template"

section \<open>Command substitution and the array argument\<close>


text \<open>
  \<^verbatim>\<open>get_array_argument(template, paramfile)\<close>, from the parsed parameter file:
  \<^verbatim>\<open>template.format(count=count)\<close> after \<^verbatim>\<open>count -= 1\<close>. The warnings of the validation
  come with the result.
\<close>

definition get_array_argument ::
  "((string \<Rightarrow> int option) \<Rightarrow> string \<Rightarrow> string \<Rightarrow> error + string) \<Rightarrow>
   string \<Rightarrow> ('k key_obj \<times> ('a, 'v) val_obj) list \<Rightarrow>
   (error + string) \<times> ('k, 'a, 'v) param_warning list" where
  "get_array_argument extended template toml_dict =
     (case read_paramfile toml_dict of
        (params, warnings) \<Rightarrow>
          (case get_count params of
             Inl e \<Rightarrow> (Inl e, warnings)
           | Inr total_count \<Rightarrow>
               (let count = total_count - 1
                in (format_map str_int extended template [(''count'', count)], warnings))))"

section \<open>Notions of the specification\<close>

subsection \<open>Entries of the parameter file\<close>

text \<open>
  An entry is kept when its key is a string and its value is a list. \<open>entry_of\<close> reads
  an entry of the validated dictionary back as an entry of the input, and
  \<open>warning_for\<close> is the warning that a rejected entry gets: the key is tested first.
\<close>

definition acceptable :: "'k key_obj \<times> ('a, 'v) val_obj \<Rightarrow> bool" where
  "acceptable entry = (is_str (fst entry) \<and> is_list (snd entry))"

fun entry_of :: "string \<times> 'a list \<Rightarrow> 'k key_obj \<times> ('a, 'v) val_obj" where
  "entry_of (k, xs) = (StrKey k, ListVal xs)"

fun warning_for :: "'k key_obj \<times> ('a, 'v) val_obj \<Rightarrow> ('k, 'a, 'v) param_warning" where
  "warning_for (key, val) = (if is_str key then Invalid_value key val else Invalid_key key val)"

subsection \<open>Overrides\<close>

text \<open>
  An override of the form \<^verbatim>\<open>key=value\<close> has a \<^verbatim>\<open>=\<close>; its key is the text before the
  first \<^verbatim>\<open>=\<close> and its value the text after it. \<open>first_occurrences\<close> keeps the first
  occurrence of every element of a list, in order.
\<close>

definition has_equals :: "string \<Rightarrow> bool" where
  "has_equals override = (CHR ''='' \<in> set override)"

definition override_pair :: "string \<Rightarrow> string \<times> string" where
  "override_pair override =
     (takeWhile (\<lambda>c. c \<noteq> CHR ''='') override, tl (dropWhile (\<lambda>c. c \<noteq> CHR ''='') override))"

definition first_occurrences :: "'a list \<Rightarrow> 'a list" where
  "first_occurrences xs = rev (remdups (rev xs))"

subsection \<open>Templates\<close>

text \<open>
  A template is literal text with placeholders written \<^verbatim>\<open>{name}\<close>. \<open>template_text\<close> is
  the format string of a template: a brace of the literal text is doubled. A placeholder
  name is plain when it is not empty, does not start with a digit and has none of the
  characters \<^verbatim>\<open>{ } [ : ! .\<close> that give a replacement field more than a name.
  \<open>substitute_pieces\<close> puts a value in the place of each placeholder.
\<close>

datatype piece = Literal string | Placeholder string

fun escape_braces :: "string \<Rightarrow> string" where
  "escape_braces [] = []"
| "escape_braces (c # cs) =
     (if c = CHR ''{'' \<or> c = CHR ''}'' then c # c # escape_braces cs else c # escape_braces cs)"

fun template_text :: "piece list \<Rightarrow> string" where
  "template_text [] = []"
| "template_text (Literal s # ps) = escape_braces s @ template_text ps"
| "template_text (Placeholder n # ps) = CHR ''{'' # n @ CHR ''}'' # template_text ps"

fun placeholders :: "piece list \<Rightarrow> string list" where
  "placeholders [] = []"
| "placeholders (Literal s # ps) = placeholders ps"
| "placeholders (Placeholder n # ps) = n # placeholders ps"

definition plain_char :: "char \<Rightarrow> bool" where
  "plain_char c = (c \<notin> set ''{}[:!.'')"

definition plain_name :: "string \<Rightarrow> bool" where
  "plain_name n = (n \<noteq> [] \<and> \<not> is_digit (hd n) \<and> list_all plain_char n)"

fun substitute_pieces :: "(string \<Rightarrow> string) \<Rightarrow> piece list \<Rightarrow> string" where
  "substitute_pieces val [] = []"
| "substitute_pieces val (Literal s # ps) = s @ substitute_pieces val ps"
| "substitute_pieces val (Placeholder n # ps) = val n @ substitute_pieces val ps"

section \<open>The fixtures of the test suite\<close>

text \<open>
  The scalars of the test files: strings, integers and floats. A float is kept as the
  mantissa and the decimal exponent of its literal (\<^verbatim>\<open>0.25\<close> is \<open>SFloat 25 (- 2)\<close>); how
  Python prints a float is the parameter \<open>float_str\<close> of \<open>scalar_str\<close>.
\<close>

datatype scalar = SStr string | SInt int | SFloat int int


text \<open>
  \<^verbatim>\<open>testfiles/params.toml\<close> as \<^verbatim>\<open>test_read_toml\<close> expects it parsed, and the
  parameters that \<^verbatim>\<open>test_read_paramfile\<close> expects from it.
\<close>

definition params_toml :: "(unit key_obj \<times> (scalar, scalar) val_obj) list" where
  "params_toml =
     [(StrKey ''dataset'', ListVal [SStr ''SYNTHETIC'']),
      (StrKey ''imputation'', ListVal [SStr ''MICE'', SStr ''GAIN'', SStr ''Mean'']),
      (StrKey ''train_percentage'', ListVal [SFloat 25 (- 2), SFloat 5 (- 1)]),
      (StrKey ''test_percentage'', ListVal [SFloat 5 (- 1)]),
      (StrKey ''holdout_set'', ListVal [SInt 0, SInt 1, SInt 2]),
      (StrKey ''val_set'', ListVal [SInt 0, SInt 1, SInt 2, SInt 3, SInt 4]),
      (StrKey ''repeat'',
         ListVal [SInt 0, SInt 1, SInt 2, SInt 3, SInt 4, SInt 5, SInt 6, SInt 7, SInt 8, SInt 9])]"

definition params_expected :: "(string, scalar list) dict" where
  "params_expected =
     [(''dataset'', [SStr ''SYNTHETIC'']),
      (''imputation'', [SStr ''MICE'', SStr ''GAIN'', SStr ''Mean'']),
      (''train_percentage'', [SFloat 25 (- 2), SFloat 5 (- 1)]),
      (''test_percentage'', [SFloat 5 (- 1)]),
      (''holdout_set'', [SInt 0, SInt 1, SInt 2]),
      (''val_set'', [SInt 0, SInt 1, SInt 2, SInt 3, SInt 4]),
      (''repeat'',
         [SInt 0, SInt 1, SInt 2, SInt 3, SInt 4, SInt 5, SInt 6, SInt 7, SInt 8, SInt 9])]"


section \<open>Counting\<close>

lemma foldl_mul_prod_list: "foldl mul a ns = a * prod_list ns"
  by (induction ns arbitrary: a) (simp_all add: mul_def mult.assoc)

lemma reduce_mul_prod_list: "ns \<noteq> [] \<Longrightarrow> reduce mul ns = Inr (prod_list ns)"
  by (cases ns) (simp_all add: foldl_mul_prod_list)

lemma count_product_prod_list: "count_product xss = Inr (prod_list (map len xss))"
  by (cases xss) (simp_all add: count_product_def len_def foldl_mul_prod_list)

lemma prod_list_len: "prod_list (map len xss) = int (prod_list (map length xss))"
  by (induction xss) (simp_all add: len_def)

lemma prod_list_len_rev: "prod_list (map len (rev xss)) = prod_list (map len xss)"
  by (simp add: rev_map [symmetric] prod_list.rev)

lemma prod_list_len_rev_int:
  "prod_list (map len (rev xss)) = int (prod_list (map length xss))"
  by (subst prod_list_len_rev) (rule prod_list_len)

lemma prod_list_len_pos:
  "0 < prod_list (map len pools) \<Longrightarrow> \<forall>pool \<in> set pools. pool \<noteq> []"
  by (induction pools) (auto simp: len_def zero_less_mult_iff)

text \<open>
  Claim C5. \<^verbatim>\<open>count_product\<close> never raises: it returns 1 for no lists and the product
  of the lengths of the lists otherwise.
\<close>

theorem count_product_total:
  "count_product [] = Inr 1 \<and>
   count_product value_lists = Inr (prod_list (map len value_lists))"
  by (simp add: count_product_prod_list)

section \<open>The cartesian product, read from the right\<close>

lemma itertools_product_snoc:
  "itertools_product (xss @ [ys]) =
     concat (map (\<lambda>p. map (\<lambda>y. p @ [y]) ys) (itertools_product xss))"
proof (induction xss)
  case Nil
  show ?case by simp
next
  case (Cons xs xss)
  show ?case
    by (induction xs) (simp_all add: Cons.IH map_concat comp_def)
qed

lemma length_itertools_product:
  "length (itertools_product xss) = prod_list (map length xss)"
proof (induction xss)
  case Nil
  show ?case by simp
next
  case (Cons xs xss)
  have "length (concat (map (\<lambda>x. map (\<lambda>p. x # p) (itertools_product xss)) xs))
        = length xs * length (itertools_product xss)"
    by (induction xs) simp_all
  then show ?case by (simp add: Cons.IH)
qed

lemma concat_map_nth:
  "i < length ps * length ys \<Longrightarrow>
   concat (map (\<lambda>p. map (f p) ys) ps) ! i = f (ps ! (i div length ys)) (ys ! (i mod length ys))"
proof (induction ps arbitrary: i)
  case Nil
  then show ?case by simp
next
  case (Cons p ps)
  show ?case
  proof (cases "i < length ys")
    case True
    then show ?thesis by (simp add: nth_append)
  next
    case False
    then have ge: "length ys \<le> i" by simp
    from Cons.prems have pos: "0 < length ys" by (cases ys) simp_all
    from Cons.prems ge have "i - length ys < length ps * length ys" by simp
    from Cons.IH [OF this]
    have ih: "concat (map (\<lambda>p. map (f p) ys) ps) ! (i - length ys) =
       f (ps ! ((i - length ys) div length ys)) (ys ! ((i - length ys) mod length ys))" .
    have d: "i div length ys = Suc ((i - length ys) div length ys)"
      using ge pos by (simp add: le_div_geq)
    have m: "(i - length ys) mod length ys = i mod length ys"
      using ge by (simp add: le_mod_geq)
    show ?thesis using False ih by (simp add: nth_append d m)
  qed
qed

section \<open>Decoding an index\<close>

lemma tuple_getitem_in_range:
  "0 \<le> i \<Longrightarrow> i < len pool \<Longrightarrow> tuple_getitem pool i = Inr (pool ! nat i)"
  by (simp add: tuple_getitem_def Let_def)

text \<open>One round of the loop on a non-empty pool and a non-negative index never raises.\<close>

lemma nth_product_loop_step:
  assumes "pool \<noteq> []" and "0 \<le> index"
  shows "nth_product_loop result index ((pool, len pool) # rest) =
         nth_product_loop (result @ [pool ! nat (index mod len pool)]) (index div len pool) rest"
proof -
  have pos: "0 < len pool" using assms(1) by (simp add: len_def)
  then have "tuple_getitem pool (index mod len pool) = Inr (pool ! nat (index mod len pool))"
    by (intro tuple_getitem_in_range) simp_all
  then show ?thesis using pos
    by (simp add: py_mod_def py_floordiv_def)
qed

lemma nth_product_loop_fold:
  "\<forall>pool \<in> set pools. pool \<noteq> [] \<Longrightarrow> 0 \<le> index \<Longrightarrow>
   nth_product_loop result index (zip pools (map len pools)) =
   Inr (snd (foldl decode_step (index, result) (zip pools (map len pools))))"
proof (induction pools arbitrary: index result)
  case Nil
  show ?case by simp
next
  case (Cons pool pools)
  have ne: "pool \<noteq> []" using Cons.prems(1) by simp
  have "0 \<le> index div len pool"
    using Cons.prems(2) by (simp add: len_def div_int_pos_iff)
  with Cons.IH [of "index div len pool"] Cons.prems(1)
  have "nth_product_loop (result @ [pool ! nat (index mod len pool)]) (index div len pool)
          (zip pools (map len pools)) =
        Inr (snd (foldl decode_step (index div len pool, result @ [pool ! nat (index mod len pool)])
          (zip pools (map len pools))))"
    by simp
  then show ?case
    by (simp add: nth_product_loop_step [OF ne Cons.prems(2)] del: nth_product_loop.simps)
qed

text \<open>For at least one list, the code and the specification's algorithm agree at every index.\<close>

lemma nth_product_decode:
  assumes "value_lists \<noteq> []"
  shows "nth_product index value_lists = decode index value_lists"
proof -
  let ?pools = "rev value_lists"
  let ?total = "prod_list (map len ?pools)"
  let ?index = "if index < 0 then index + ?total else index"
  have red: "reduce mul (map len ?pools) = Inr ?total"
    using assms by (simp add: reduce_mul_prod_list)
  show ?thesis
  proof (cases "0 \<le> ?index \<and> ?index < ?total")
    case True
    then have "0 < ?total" by linarith
    then have "\<forall>pool \<in> set ?pools. pool \<noteq> []" by (rule prod_list_len_pos)
    from nth_product_loop_fold [OF this, of ?index "[]"] True
    have "nth_product_loop [] ?index (zip ?pools (map len ?pools)) =
          Inr (snd (foldl decode_step (?index, []) (zip ?pools (map len ?pools))))"
      by simp
    then show ?thesis using True assms red
      by (simp add: nth_product_def decode_def Let_def len_def)
  next
    case False
    then show ?thesis using assms red
      by (simp add: nth_product_def decode_def Let_def len_def)
  qed
qed

text \<open>The loop computes the reversed \<open>i\<close>-th element of the cartesian product.\<close>

lemma nth_product_loop_product:
  "i < prod_list (map length xss) \<Longrightarrow>
   nth_product_loop result (int i) (zip (rev xss) (map len (rev xss))) =
   Inr (result @ rev (itertools_product xss ! i))"
proof (induction xss arbitrary: i result rule: rev_induct)
  case Nil
  then show ?case by simp
next
  case (snoc ys xss)
  let ?n = "length ys"
  from snoc.prems have bound: "i < prod_list (map length xss) * ?n" by simp
  then have pos: "0 < ?n" by (cases ys) simp_all
  then have ne: "ys \<noteq> []" by auto
  have q: "i div ?n < prod_list (map length xss)"
    using bound pos by (simp add: less_mult_imp_div_less)
  have step: "nth_product_loop result (int i) ((ys, len ys) # zip (rev xss) (map len (rev xss))) =
        nth_product_loop (result @ [ys ! (i mod ?n)]) (int (i div ?n))
          (zip (rev xss) (map len (rev xss)))"
    using nth_product_loop_step [OF ne, of "int i" result]
    by (simp add: len_def zdiv_int zmod_int nat_mod_distrib del: nth_product_loop.simps)
  have "itertools_product (xss @ [ys]) ! i =
        (itertools_product xss ! (i div ?n)) @ [ys ! (i mod ?n)]"
    using bound by (simp add: itertools_product_snoc concat_map_nth length_itertools_product)
  then show ?case using step snoc.IH [OF q] by simp
qed

lemma nth_product_nth:
  assumes "i < prod_list (map length xss)"
  shows "nth_product (int i) xss = Inr (itertools_product xss ! i)"
proof (cases "xss = []")
  case True
  with assms show ?thesis by (simp add: nth_product_def len_def)
next
  case False
  have "prod_list (map len (rev xss)) = int (prod_list (map length xss))"
    by (rule prod_list_len_rev_int)
  then show ?thesis
    using False assms nth_product_loop_product [OF assms, of "[]"]
    by (simp add: nth_product_def Let_def len_def reduce_mul_prod_list)
qed

text \<open>
  Claim C1. When \<^verbatim>\<open>count_product\<close> returns \<open>n\<close>, \<^verbatim>\<open>nth_product\<close> agrees with the
  specification's mixed-radix algorithm at every index from 0 to \<open>n - 1\<close>, and at every
  index at all when there is at least one list. Running through the indices from 0 to
  \<open>n - 1\<close> in increasing order gives the cartesian product in its standard order, the
  first list the most significant. Index 8 of four binary lists is \<open>(1, 0, 0, 0)\<close>.
\<close>

theorem nth_product_enumerates_product:
  "count_product value_lists = Inr n \<Longrightarrow>
     (\<forall>i. 0 \<le> i \<and> i < n \<longrightarrow> nth_product i value_lists = decode i value_lists) \<and>
     (value_lists \<noteq> [] \<longrightarrow> (\<forall>i. nth_product i value_lists = decode i value_lists)) \<and>
     map (\<lambda>i. nth_product i value_lists) [0..n - 1] = map Inr (itertools_product value_lists) \<and>
     nth_product 8 [[0, 1], [0, 1], [0, 1], [0, 1::int]] = Inr [1, 0, 0, 0]"
proof -
  assume c: "count_product value_lists = Inr n"
  then have n: "n = int (prod_list (map length value_lists))"
    by (simp add: count_product_prod_list prod_list_len)
  have dec: "\<forall>i. 0 \<le> i \<and> i < n \<longrightarrow> nth_product i value_lists = decode i value_lists"
  proof (cases "value_lists = []")
    case True
    then show ?thesis using n by (auto simp: nth_product_def decode_def len_def)
  next
    case False
    then show ?thesis by (simp add: nth_product_decode)
  qed
  have enum: "map (\<lambda>i. nth_product i value_lists) [0..n - 1] =
              map Inr (itertools_product value_lists)"
  proof (rule nth_equalityI)
    show "length (map (\<lambda>i. nth_product i value_lists) [0..n - 1]) =
          length (map Inr (itertools_product value_lists))"
      using n by (simp add: length_itertools_product)
  next
    fix k assume "k < length (map (\<lambda>i. nth_product i value_lists) [0..n - 1])"
    then have k: "k < prod_list (map length value_lists)" using n by simp
    then have "[0..n - 1] ! k = int k" using n by (simp add: nth_upto)
    then show "map (\<lambda>i. nth_product i value_lists) [0..n - 1] ! k =
               map Inr (itertools_product value_lists) ! k"
      using k n by (simp add: nth_product_nth length_itertools_product)
  qed
  have "nth_product 8 [[0, 1], [0, 1], [0, 1], [0, 1::int]] = Inr [1, 0, 0, 0]"
    by (simp add: nth_product_def len_def mul_def py_mod_def py_floordiv_def tuple_getitem_def)
  with dec enum show ?thesis by (simp add: nth_product_decode)
qed

theorem nth_product_enumerates_product_witness:
  "count_product [[1, 2, 5], [10, 20], [100::int]] = Inr 6 \<and>
   nth_product 2 [[1, 2, 5], [10, 20], [100::int]] = decode 2 [[1, 2, 5], [10, 20], [100]] \<and>
   nth_product 2 [[1, 2, 5], [10, 20], [100::int]] = Inr [2, 10, 100] \<and>
   [[1, 2, 5], [10, 20], [100::int]] \<noteq> [] \<and>
   nth_product 6 [[1, 2, 5], [10, 20], [100::int]] = decode 6 [[1, 2, 5], [10, 20], [100]] \<and>
   nth_product 6 [[1, 2, 5], [10, 20], [100::int]] = Inl IndexError \<and>
   map (\<lambda>i. nth_product i [[1, 2, 5], [10, 20], [100::int]]) [0..5] =
     map Inr [[1, 10, 100], [1, 20, 100], [2, 10, 100], [2, 20, 100], [5, 10, 100], [5, 20, 100]]"
proof -
  have c: "count_product [[1, 2, 5], [10, 20], [100::int]] = Inr 6"
    by (simp add: count_product_def len_def mul_def)
  have v: "nth_product 2 [[1, 2, 5], [10, 20], [100::int]] = Inr [2, 10, 100]"
    by (simp add: nth_product_def len_def mul_def py_mod_def py_floordiv_def tuple_getitem_def)
  have r: "nth_product 6 [[1, 2, 5], [10, 20], [100::int]] = Inl IndexError"
    by (simp add: nth_product_def len_def mul_def)
  note w = nth_product_enumerates_product [OF c]
  from w have d2: "nth_product 2 [[1, 2, 5], [10, 20], [100::int]] = decode 2 [[1, 2, 5], [10, 20], [100]]"
    by blast
  from w have d6: "nth_product 6 [[1, 2, 5], [10, 20], [100::int]] = decode 6 [[1, 2, 5], [10, 20], [100]]"
    by blast
  from w have e: "map (\<lambda>i. nth_product i [[1, 2, 5], [10, 20], [100::int]]) [0..6 - 1] =
      map Inr (itertools_product [[1, 2, 5], [10, 20], [100]])"
    by blast
  have p: "itertools_product [[1, 2, 5], [10, 20], [100::int]] =
      [[1, 10, 100], [1, 20, 100], [2, 10, 100], [2, 20, 100], [5, 10, 100], [5, 20, 100]]"
    by simp
  have "map (\<lambda>i. nth_product i [[1, 2, 5], [10, 20], [100::int]]) [0..5] =
     map Inr [[1, 10, 100], [1, 20, 100], [2, 10, 100], [2, 20, 100], [5, 10, 100], [5, 20, 100]]"
    using e by (simp only: p) simp
  with c v r d2 d6 show ?thesis by (intro conjI) simp_all
qed

text \<open>
  Claim C3. A negative index \<open>i\<close> with \<open>- total \<le> i\<close> decodes to the combination of
  \<open>i + total\<close>, and both calls return a combination.
\<close>

theorem nth_product_negative_index:
  "count_product value_lists = Inr total_count \<Longrightarrow> - total_count \<le> i \<Longrightarrow> i < 0 \<Longrightarrow>
     nth_product i value_lists = nth_product (i + total_count) value_lists \<and>
     (\<exists>combination. nth_product i value_lists = Inr combination)"
proof -
  assume c: "count_product value_lists = Inr total_count"
    and lo: "- total_count \<le> i" and neg: "i < 0"
  from c have t: "total_count = int (prod_list (map length value_lists))"
    by (simp add: count_product_prod_list prod_list_len)
  show ?thesis
  proof (cases "value_lists = []")
    case True
    then show ?thesis by (simp add: nth_product_def len_def)
  next
    case False
    have red: "reduce mul (map len (rev value_lists)) = Inr total_count"
      using False t by (simp add: reduce_mul_prod_list prod_list_len_rev_int)
    have eq: "nth_product i value_lists = nth_product (i + total_count) value_lists"
      using False red lo neg by (simp add: nth_product_def Let_def len_def)
    have "nat (i + total_count) < prod_list (map length value_lists)"
      using t lo neg by linarith
    from nth_product_nth [OF this] lo
    have "nth_product (i + total_count) value_lists =
          Inr (itertools_product value_lists ! nat (i + total_count))"
      by simp
    with eq show ?thesis by simp
  qed
qed

theorem nth_product_negative_index_witness:
  "count_product [[1, 2, 5], [10, 20], [100::int]] = Inr 6 \<and> - 6 \<le> (- 4::int) \<and> (- 4::int) < 0 \<and>
   nth_product (- 4) [[1, 2, 5], [10, 20], [100::int]] = nth_product 2 [[1, 2, 5], [10, 20], [100]] \<and>
   nth_product (- 4) [[1, 2, 5], [10, 20], [100::int]] = Inr [2, 10, 100]"
proof -
  have c: "count_product [[1, 2, 5], [10, 20], [100::int]] = Inr 6"
    by (simp add: count_product_def len_def mul_def)
  have v: "nth_product 2 [[1, 2, 5], [10, 20], [100::int]] = Inr [2, 10, 100]"
    by (simp add: nth_product_def len_def mul_def py_mod_def py_floordiv_def tuple_getitem_def)
  from nth_product_negative_index [OF c, of "- 4"] c v show ?thesis by simp
qed

section \<open>No lists at all\<close>

text \<open>
  For at least one list, \<^verbatim>\<open>nth_product\<close> raises \<^verbatim>\<open>IndexError\<close> exactly for the indices
  outside \<open>[- total, total)\<close> and returns a combination inside.
\<close>

lemma nth_product_raises_iff:
  assumes "value_lists \<noteq> []" and "count_product value_lists = Inr total_count"
  shows "(nth_product i value_lists = Inl IndexError) = (\<not> (- total_count \<le> i \<and> i < total_count))"
    and "- total_count \<le> i \<and> i < total_count \<Longrightarrow> \<exists>combination. nth_product i value_lists = Inr combination"
proof -
  from assms(2) have t: "total_count = prod_list (map len (rev value_lists))"
    by (simp add: count_product_prod_list prod_list_len_rev)
  show "(nth_product i value_lists = Inl IndexError) = (\<not> (- total_count \<le> i \<and> i < total_count))"
    unfolding nth_product_decode [OF assms(1)] using t
    by (auto simp: decode_def Let_def)
  show "\<exists>combination. nth_product i value_lists = Inr combination"
    if "- total_count \<le> i \<and> i < total_count"
    unfolding nth_product_decode [OF assms(1)] using t that
    by (auto simp: decode_def Let_def)
qed

text \<open>
  Claim C2. The specification gives the empty parameter set one combination, so only
  index 0 (and \<open>- 1\<close>, which wraps to it) is in range: the specification's algorithm
  refuses index 1. The code returns the empty tuple for every index, 1 among them.
\<close>

theorem nth_product_no_lists_any_index:
  "nth_product index [] = Inr [] \<and> nth_product 1 [] = Inr [] \<and> decode 1 [] = Inl IndexError"
  by (simp add: nth_product_def decode_def len_def)

text \<open>
  Claim C4. For no lists the total is 1, the indices 5 and \<open>- 7\<close> lie outside
  \<open>[- 1, 1)\<close>, and \<^verbatim>\<open>nth_product\<close> returns the empty tuple for both instead of raising
  \<^verbatim>\<open>IndexError\<close>.
\<close>

theorem nth_product_no_lists_out_of_range:
  "count_product [] = Inr 1 \<and> \<not> (- 1 \<le> (5::int) \<and> (5::int) < 1) \<and>
   nth_product 5 [] = Inr [] \<and> nth_product (- 7) [] = Inr []"
  by (simp add: nth_product_def count_product_def len_def)

section \<open>Storing into a dictionary\<close>

lemma dict_keys_Nil: "dict_keys [] = []"
  by (simp add: dict_keys_def)

lemma dict_set_fresh: "k \<notin> set (dict_keys d) \<Longrightarrow> dict_set d k v = d @ [(k, v)]"
  by (induction d) (auto simp: dict_keys_def)

lemma dict_keys_dict_set:
  "dict_keys (dict_set d k v) = (if k \<in> set (dict_keys d) then dict_keys d else dict_keys d @ [k])"
  by (induction d) (fastforce simp: dict_keys_def)+

lemma map_of_dict_set: "map_of (dict_set d k v) = (map_of d)(k \<mapsto> v)"
  by (induction d) (auto simp: fun_eq_iff)

lemma dict_update_Cons: "dict_update d ((k, v) # ps) = dict_update (dict_set d k v) ps"
  by (simp add: dict_update_def)

lemma dict_update_distinct:
  "distinct (map fst (d @ ps)) \<Longrightarrow> dict_update d ps = d @ ps"
proof (induction ps arbitrary: d)
  case Nil
  show ?case by (simp add: dict_update_def)
next
  case (Cons p ps)
  obtain k v where p: "p = (k, v)" by (cases p)
  from Cons.prems p have fresh: "k \<notin> set (dict_keys d)" by (auto simp: dict_keys_def)
  from Cons.prems p have "distinct (map fst ((d @ [(k, v)]) @ ps))" by simp
  from Cons.IH [OF this] have "dict_update (d @ [(k, v)]) ps = d @ (k, v) # ps" by simp
  then show ?case using p by (simp add: dict_update_def dict_set_fresh [OF fresh])
qed

lemma py_dict_distinct: "distinct (map fst ps) \<Longrightarrow> py_dict ps = ps"
  using dict_update_distinct [of "[]" ps] by (simp add: py_dict_def)

section \<open>Validating the parameter file\<close>

lemma validate_loop_filter:
  "distinct (map fst items) \<Longrightarrow>
   (\<forall>k \<in> set (dict_keys outdict). StrKey k \<notin> set (map fst items)) \<Longrightarrow>
   map entry_of (fst (validate_loop outdict warnings items)) =
     map entry_of outdict @ filter acceptable items \<and>
   snd (validate_loop outdict warnings items) =
     warnings @ map warning_for (filter (\<lambda>entry. \<not> acceptable entry) items)"
proof (induction items arbitrary: outdict warnings)
  case Nil
  show ?case by simp
next
  case (Cons entry items)
  obtain key val where e: "entry = (key, val)" by (cases entry)
  from Cons.prems have d: "distinct (map fst items)" by simp
  from Cons.prems have o: "\<forall>k \<in> set (dict_keys outdict). StrKey k \<notin> set (map fst items)" by simp
  show ?case
  proof (cases "acceptable entry")
    case False
    then show ?thesis
      using Cons.IH [OF d o] e by (cases key; cases val) (simp_all add: acceptable_def)
  next
    case True
    then obtain k xs where kv: "key = StrKey k" "val = ListVal xs"
      using e by (cases key; cases val) (simp_all add: acceptable_def)
    from Cons.prems(2) e kv have fresh: "k \<notin> set (dict_keys outdict)" by auto
    from Cons.prems(1) e kv have "StrKey k \<notin> set (map fst items)" by simp
    with o have o': "\<forall>k' \<in> set (dict_keys (outdict @ [(k, xs)])). StrKey k' \<notin> set (map fst items)"
      by (auto simp: dict_keys_def)
    show ?thesis
      using Cons.IH [OF d o', of warnings] e kv True
      by (simp add: dict_set_fresh [OF fresh])
  qed
qed

text \<open>
  Claim C7. The keys of a mapping are distinct. The validated dictionary holds exactly the
  entries with a string key and a list value, in the order of the input, and there is one
  warning for each other entry, in the order of the input. The function is total: no
  entry makes it raise.
\<close>

theorem validate_param_dict_keeps_valid:
  "distinct (map fst dict_lists) \<Longrightarrow>
     map entry_of (fst (validate_param_dict dict_lists)) = filter acceptable dict_lists \<and>
     snd (validate_param_dict dict_lists) =
       map warning_for (filter (\<lambda>entry. \<not> acceptable entry) dict_lists) \<and>
     length (snd (validate_param_dict dict_lists)) =
       length (filter (\<lambda>entry. \<not> acceptable entry) dict_lists)"
  using validate_loop_filter [of dict_lists "[]" "[]"]
  by (simp add: validate_param_dict_def dict_keys_def)

theorem validate_param_dict_keeps_valid_witness:
  "distinct (map fst
     [(StrKey ''a'', ListVal [1, 2::int]), (OtherKey (7::int), ListVal [3]),
      (StrKey ''b'', OtherVal (5::int)), (StrKey ''c'', ListVal [])]) \<and>
   validate_param_dict
     [(StrKey ''a'', ListVal [1, 2::int]), (OtherKey (7::int), ListVal [3]),
      (StrKey ''b'', OtherVal (5::int)), (StrKey ''c'', ListVal [])] =
     ([(''a'', [1, 2]), (''c'', [])],
      [Invalid_key (OtherKey 7) (ListVal [3]), Invalid_value (StrKey ''b'') (OtherVal 5)]) \<and>
   filter acceptable
     [(StrKey ''a'', ListVal [1, 2::int]), (OtherKey (7::int), ListVal [3]),
      (StrKey ''b'', OtherVal (5::int)), (StrKey ''c'', ListVal [])] =
     [(StrKey ''a'', ListVal [1, 2]), (StrKey ''c'', ListVal [])]"
proof -
  have d: "distinct (map fst
     [(StrKey ''a'', ListVal [1, 2::int]), (OtherKey (7::int), ListVal [3]),
      (StrKey ''b'', OtherVal (5::int)), (StrKey ''c'', ListVal [])])"
    by simp
  from validate_param_dict_keeps_valid [OF d] d show ?thesis
    by (simp add: validate_param_dict_def acceptable_def)
qed

section \<open>Merging the overrides\<close>

lemma overrides_loop_update:
  "overrides_loop out warnings overrides =
     (dict_update out (map override_pair (filter has_equals overrides)),
      warnings @ map Not_key_value (filter (\<lambda>override. \<not> has_equals override) overrides))"
proof (induction overrides arbitrary: out warnings)
  case Nil
  show ?case by (simp add: dict_update_def)
next
  case (Cons override overrides)
  show ?case
    by (simp add: Cons.IH split_maxsplit1_def has_equals_def override_pair_def
        dict_update_def len_def Let_def)
qed

lemma overrides_to_dict_pairs:
  "overrides_to_dict overrides =
     (dict_update [] (map override_pair (filter has_equals overrides)),
      map Not_key_value (filter (\<lambda>override. \<not> has_equals override) overrides))"
  by (simp add: overrides_to_dict_def overrides_loop_update)

lemma first_occurrences_Cons:
  "first_occurrences (x # xs) = x # first_occurrences (filter (\<lambda>y. y \<noteq> x) xs)"
proof -
  have "remdups (ys @ [x]) = remdups (filter (\<lambda>y. y \<noteq> x) ys) @ [x]" for ys
    by (induction ys) auto
  from this [of "rev xs"] show ?thesis
    by (simp add: first_occurrences_def rev_filter)
qed

lemma first_occurrences_filter:
  "first_occurrences (filter P xs) = filter P (first_occurrences xs)"
  by (simp add: first_occurrences_def rev_filter remdups_filter)

lemma first_occurrences_idem: "first_occurrences (first_occurrences xs) = first_occurrences xs"
  by (simp add: first_occurrences_def remdups_remdups)

lemma dict_keys_dict_update:
  "dict_keys (dict_update d ps) =
     dict_keys d @ first_occurrences (filter (\<lambda>k. k \<notin> set (dict_keys d)) (map fst ps))"
proof (induction ps arbitrary: d)
  case Nil
  show ?case by (simp add: dict_update_def first_occurrences_def)
next
  case (Cons p ps)
  obtain k v where p: "p = (k, v)" by (cases p)
  show ?case
  proof (cases "k \<in> set (dict_keys d)")
    case True
    then show ?thesis using p by (simp add: dict_update_Cons Cons.IH dict_keys_dict_set)
  next
    case False
    have "(\<lambda>ka. ka \<noteq> k \<and> ka \<notin> set (dict_keys d)) = (\<lambda>x. x \<notin> set (dict_keys d) \<and> x \<noteq> k)"
      by auto
    then show ?thesis using p False
      by (simp add: dict_update_Cons Cons.IH dict_keys_dict_set first_occurrences_Cons)
  qed
qed

lemma map_of_dict_update: "map_of (dict_update d ps) = map_of d ++ map_of (rev ps)"
proof (induction ps arbitrary: d)
  case Nil
  show ?case by (simp add: dict_update_def)
next
  case (Cons p ps)
  obtain k v where p: "p = (k, v)" by (cases p)
  show ?case using p
    by (auto simp: dict_update_Cons Cons.IH map_of_dict_set fun_eq_iff map_add_def
        split: option.splits)
qed

lemma distinct_dict_keys_dict_update:
  "distinct (dict_keys d) \<Longrightarrow> distinct (dict_keys (dict_update d ps))"
  by (auto simp: dict_keys_dict_update first_occurrences_def)

lemma map_of_rev_distinct: "distinct (map fst xs) \<Longrightarrow> map_of (rev xs) = map_of xs"
  by (subst map_of_inject_set) (simp_all add: rev_map [symmetric])

lemma dict_keys_map_values: "dict_keys (map (\<lambda>(k, v). (k, f v)) d) = dict_keys d"
  by (induction d) (auto simp: dict_keys_def)

text \<open>
  Claim C8. Let \<open>pairs\<close> be the overrides that have a \<^verbatim>\<open>=\<close>, each split at its first
  \<^verbatim>\<open>=\<close>, and \<open>merged\<close> the configuration built from a base mapping with distinct keys.
  There is one warning for each override without a \<^verbatim>\<open>=\<close>. The keys of the base mapping
  keep their places at the front of \<open>merged\<close>, and the new keys follow them in the order
  in which the overrides first name them. A key has the value of the last override that
  names it, and the value of the base mapping, as a string, when no override names it.
\<close>

theorem get_sbatch_config_merge:
  "distinct (dict_keys config_base) \<Longrightarrow>
   pairs = map override_pair (filter has_equals overrides) \<Longrightarrow>
   merged = fst (get_sbatch_config str_of config_base (Some overrides)) \<Longrightarrow>
     snd (get_sbatch_config str_of config_base (Some overrides)) =
       map Not_key_value (filter (\<lambda>override. \<not> has_equals override) overrides) \<and>
     dict_keys merged =
       dict_keys config_base @
       first_occurrences (filter (\<lambda>k. k \<notin> set (dict_keys config_base)) (map fst pairs)) \<and>
     (\<forall>k. dict_get merged k =
        (case map_of (rev pairs) k of
           Some v \<Rightarrow> Some v
         | None \<Rightarrow> map_option str_of (dict_get config_base k))) \<and>
     distinct (dict_keys merged)"
proof -
  assume d: "distinct (dict_keys config_base)"
    and pairs: "pairs = map override_pair (filter has_equals overrides)"
    and merged: "merged = fst (get_sbatch_config str_of config_base (Some overrides))"
  let ?config = "map (\<lambda>(k, v). (k, str_of v)) config_base"
  let ?od = "dict_update [] pairs"
  have kc: "dict_keys ?config = dict_keys config_base" by (rule dict_keys_map_values)
  have "map fst ?config = map fst config_base" using kc by (simp only: dict_keys_def)
  with d have "distinct (map fst ?config)" by (simp only: dict_keys_def)
  then have config: "py_dict ?config = ?config" by (rule py_dict_distinct)
  have m: "merged = dict_update ?config ?od"
    by (simp add: merged get_sbatch_config_def config overrides_to_dict_pairs pairs)
  have w: "snd (get_sbatch_config str_of config_base (Some overrides)) =
       map Not_key_value (filter (\<lambda>override. \<not> has_equals override) overrides)"
    by (simp add: get_sbatch_config_def overrides_to_dict_pairs)
  have kod: "dict_keys ?od = first_occurrences (map fst pairs)"
    by (simp add: dict_keys_dict_update dict_keys_Nil)
  then have dod: "distinct (map fst ?od)"
    by (simp add: dict_keys_def [symmetric] first_occurrences_def)
  have k: "dict_keys merged =
       dict_keys config_base @
       first_occurrences (filter (\<lambda>k. k \<notin> set (dict_keys config_base)) (map fst pairs))"
    unfolding m dict_keys_dict_update kc
    by (simp add: dict_keys_def [symmetric] kod first_occurrences_filter first_occurrences_idem)
  have "map_of merged = map_of ?config ++ map_of (rev pairs)"
    unfolding m by (simp add: map_of_dict_update map_of_rev_distinct [OF dod])
  then have v: "\<forall>k. dict_get merged k =
        (case map_of (rev pairs) k of
           Some v \<Rightarrow> Some v
         | None \<Rightarrow> map_option str_of (dict_get config_base k))"
    by (simp add: dict_get_def map_of_map map_add_def split: option.splits)
  have "distinct (dict_keys merged)"
    unfolding m using d kc by (simp add: distinct_dict_keys_dict_update)
  with w k v show ?thesis by simp
qed

theorem get_sbatch_config_merge_witness:
  "distinct (dict_keys
     [(''p'', ''mynode''), (''A'', ''MY-ACCOUNT''), (''N'', ''2''), (''time'', ''15:00:00''),
      (''o'', ''messages_%a.out'')]) \<and>
   map override_pair (filter has_equals [''z=0'', ''A=OTHER-ACCOUNT'', ''junk'', ''z=1=2'']) =
     [(''z'', ''0''), (''A'', ''OTHER-ACCOUNT''), (''z'', ''1=2'')] \<and>
   get_sbatch_config (\<lambda>s. s)
     [(''p'', ''mynode''), (''A'', ''MY-ACCOUNT''), (''N'', ''2''), (''time'', ''15:00:00''),
      (''o'', ''messages_%a.out'')]
     (Some [''z=0'', ''A=OTHER-ACCOUNT'', ''junk'', ''z=1=2'']) =
     ([(''p'', ''mynode''), (''A'', ''OTHER-ACCOUNT''), (''N'', ''2''), (''time'', ''15:00:00''),
       (''o'', ''messages_%a.out''), (''z'', ''1=2'')],
      [Not_key_value ''junk'']) \<and>
   first_occurrences (filter (\<lambda>k. k \<notin> set [''p'', ''A'', ''N'', ''time'', ''o'']) [''z'', ''A'', ''z'']) = [''z'']"
proof -
  have d: "distinct (dict_keys
     [(''p'', ''mynode''), (''A'', ''MY-ACCOUNT''), (''N'', ''2''), (''time'', ''15:00:00''),
      (''o'', ''messages_%a.out'')])"
    by (simp add: dict_keys_def)
  from get_sbatch_config_merge [where str_of = "\<lambda>s. s"
      and overrides = "[''z=0'', ''A=OTHER-ACCOUNT'', ''junk'', ''z=1=2'']", OF d refl refl] d
  show ?thesis
    by (simp add: get_sbatch_config_def py_dict_def dict_update_def overrides_to_dict_def
      split_maxsplit1_def len_def override_pair_def has_equals_def first_occurrences_def)
qed

section \<open>Reading a template\<close>

text \<open>Literal text, its braces doubled, is copied to the output.\<close>

lemma build_string_escape:
  "build_string kw so ext (escape_braces s @ rest) =
     (case build_string kw so ext rest of Inl e \<Rightarrow> Inl e | Inr out \<Rightarrow> Inr (s @ out))"
  by (induction s) (auto split: sum.splits)

lemma parse_field_plain_char:
  "plain_char c \<Longrightarrow> parse_field kw so ext acc (c # cs) = parse_field kw so ext (acc @ [c]) cs"
  by (simp add: plain_char_def)

lemma parse_field_name:
  "list_all plain_char n \<Longrightarrow>
   parse_field kw so ext acc (n @ CHR ''}'' # rest) = parse_field kw so ext (acc @ n) (CHR ''}'' # rest)"
  by (induction n arbitrary: acc) (simp_all add: parse_field_plain_char del: parse_field.simps)

lemma parse_field_close:
  "plain_name n \<Longrightarrow>
   parse_field kw so ext n (CHR ''}'' # rest) =
     (case kw n of
        None \<Rightarrow> Inl (KeyError n)
      | Some v \<Rightarrow> (case build_string kw so ext rest of Inl e \<Rightarrow> Inl e | Inr out \<Rightarrow> Inr (so v @ out)))"
  by (auto simp: plain_name_def plain_char_def list_all_iff)

text \<open>A placeholder with a plain name is looked up, and the rest is read after it.\<close>

lemma build_string_placeholder:
  assumes "plain_name n"
  shows "build_string kw so ext (CHR ''{'' # n @ CHR ''}'' # rest) =
     (case kw n of
        None \<Rightarrow> Inl (KeyError n)
      | Some v \<Rightarrow> (case build_string kw so ext rest of Inl e \<Rightarrow> Inl e | Inr out \<Rightarrow> Inr (so v @ out)))"
proof -
  from assms obtain c cs where n: "n = c # cs" and c: "c \<noteq> CHR ''{''" and pl: "list_all plain_char n"
    by (cases n) (auto simp: plain_name_def plain_char_def)
  have "build_string kw so ext (CHR ''{'' # n @ CHR ''}'' # rest) =
        parse_field kw so ext [] (n @ CHR ''}'' # rest)"
    using n c by simp
  also have "\<dots> = parse_field kw so ext n (CHR ''}'' # rest)"
    using parse_field_name [OF pl, of kw so ext "[]" rest] by simp
  finally show ?thesis by (simp only: parse_field_close [OF assms])
qed

text \<open>
  The format string of a template raises \<^verbatim>\<open>KeyError\<close> for its first placeholder that
  the mapping does not have, and gives the template with the values filled in when there
  is none.
\<close>

lemma build_string_template:
  "list_all plain_name (placeholders ps) \<Longrightarrow>
   build_string kw so ext (template_text ps) =
     (case filter (\<lambda>n. kw n = None) (placeholders ps) of
        [] \<Rightarrow> Inr (substitute_pieces (\<lambda>n. so (the (kw n))) ps)
      | n # _ \<Rightarrow> Inl (KeyError n))"
proof (induction ps rule: template_text.induct)
  case 1
  show ?case by simp
next
  case (2 s ps)
  then show ?case
    by (simp add: build_string_escape split: list.splits)
next
  case (3 n ps)
  then have pn: "plain_name n" and rest: "list_all plain_name (placeholders ps)" by simp_all
  show ?case
    using "3.IH" [OF rest]
    by (simp add: build_string_placeholder [OF pn] split: option.splits list.splits
        del: build_string.simps)
qed

lemma substitute_pieces_cong:
  "(\<And>n. n \<in> set (placeholders ps) \<Longrightarrow> f n = g n) \<Longrightarrow>
   substitute_pieces f ps = substitute_pieces g ps"
  by (induction ps rule: placeholders.induct) simp_all

section \<open>Substituting a combination into a command\<close>








section \<open>The array argument\<close>

lemma plain_name_count: "plain_name ''count''"
  by (simp add: plain_name_def plain_char_def is_digit_def)

lemma list_all_count_plain:
  "list_all (\<lambda>n. n = ''count'') ns \<Longrightarrow> list_all plain_name ns"
  by (induction ns) (simp_all add: plain_name_count)

lemma filter_count_missing:
  "list_all (\<lambda>n. n = ''count'') ns \<Longrightarrow>
   filter (\<lambda>n. dict_get [(''count'', c)] n = None) ns = []"
  by (induction ns) (simp_all add: dict_get_def)

lemma format_count_template:
  assumes "list_all (\<lambda>n. n = ''count'') (placeholders ps)"
  shows "format_map str_int extended (template_text ps) [(''count'', c)] =
         Inr (substitute_pieces (\<lambda>n. str_int c) ps)"
proof -
  have "substitute_pieces (\<lambda>n. str_int (the (dict_get [(''count'', c)] n))) ps =
        substitute_pieces (\<lambda>n. str_int c) ps"
    using assms by (intro substitute_pieces_cong) (auto simp: list_all_iff dict_get_def)
  then show ?thesis
    using build_string_template [OF list_all_count_plain [OF assms],
        of "dict_get [(''count'', c)]" str_int extended]
    by (simp add: format_map_def filter_count_missing [OF assms])
qed

lemma get_array_argument_format:
  "get_count (fst (read_paramfile toml_dict)) = Inr total_count \<Longrightarrow>
   get_array_argument extended template toml_dict =
     (format_map str_int extended template [(''count'', total_count - 1)],
      snd (read_paramfile toml_dict))"
  by (cases "read_paramfile toml_dict") (simp add: get_array_argument_def)

lemma str_int_899: "str_int 899 = ''899''"
  by (simp add: str_int_def str_nat.simps digit_char_def)

lemma str_int_minus_1: "str_int (- 1) = ''-1''"
  by (simp add: str_int_def str_nat.simps digit_char_def)

lemma format_default_template:
  "format_map str_int extended ''0-{count}'' [(''count'', c)] = Inr (''0-'' @ str_int c)"
  by (simp add: format_map_def dict_get_def is_digit_def)

lemma format_throttled_template:
  "format_map str_int extended ''0-{count}%10'' [(''count'', c)] = Inr (''0-'' @ str_int c @ ''%10'')"
  by (simp add: format_map_def dict_get_def is_digit_def)

lemma read_paramfile_params_toml: "read_paramfile params_toml = (params_expected, [])"
  by (simp add: read_paramfile_def validate_param_dict_def params_toml_def params_expected_def)

text \<open>
  Claim C9. When the parameter file has \<open>total_count\<close> combinations, the array argument
  for a template whose placeholders are all \<^verbatim>\<open>{count}\<close> is the template with
  \<open>total_count - 1\<close> in their place. When the lists of the file have the lengths 1, 3, 2,
  1, 3, 5 and 10, the count is 900, \<^verbatim>\<open>0-{count}\<close> gives \<^verbatim>\<open>0-899\<close> and \<^verbatim>\<open>0-{count}%10\<close>
  gives \<^verbatim>\<open>0-899%10\<close>.
\<close>

theorem get_array_argument_range:
  "(get_count (fst (read_paramfile toml_dict)) = Inr total_count \<and>
    list_all (\<lambda>n. n = ''count'') (placeholders ps) \<longrightarrow>
      fst (get_array_argument extended (template_text ps) toml_dict) =
        Inr (substitute_pieces (\<lambda>n. str_int (total_count - 1)) ps)) \<and>
   (map len (dict_values (fst (read_paramfile toml_dict))) = [1, 3, 2, 1, 3, 5, 10] \<longrightarrow>
      get_count (fst (read_paramfile toml_dict)) = Inr 900 \<and>
      fst (get_array_argument extended ''0-{count}'' toml_dict) = Inr ''0-899'' \<and>
      fst (get_array_argument extended ''0-{count}%10'' toml_dict) = Inr ''0-899%10'')"
proof (intro conjI impI)
  assume a: "get_count (fst (read_paramfile toml_dict)) = Inr total_count \<and>
    list_all (\<lambda>n. n = ''count'') (placeholders ps)"
  then show "fst (get_array_argument extended (template_text ps) toml_dict) =
        Inr (substitute_pieces (\<lambda>n. str_int (total_count - 1)) ps)"
    by (simp add: get_array_argument_format format_count_template)
next
  assume s: "map len (dict_values (fst (read_paramfile toml_dict))) = [1, 3, 2, 1, 3, 5, 10]"
  then show c: "get_count (fst (read_paramfile toml_dict)) = Inr 900"
    by (simp add: get_count_def count_product_prod_list)
  show "fst (get_array_argument extended ''0-{count}'' toml_dict) = Inr ''0-899''"
    by (simp only: get_array_argument_format [OF c] format_default_template fst_conv)
       (simp add: str_int_899)
  show "fst (get_array_argument extended ''0-{count}%10'' toml_dict) = Inr ''0-899%10''"
    by (simp only: get_array_argument_format [OF c] format_throttled_template fst_conv)
       (simp add: str_int_899)
qed

theorem get_array_argument_range_witness:
  "get_count (fst (read_paramfile params_toml)) = Inr 900 \<and>
   list_all (\<lambda>n. n = ''count'') (placeholders [Literal ''50-'', Placeholder ''count'', Literal ''%1'']) \<and>
   template_text [Literal ''50-'', Placeholder ''count'', Literal ''%1''] = ''50-{count}%1'' \<and>
   fst (get_array_argument (\<lambda>kw name rest. Inl ValueError) ''50-{count}%1'' params_toml) =
     Inr ''50-899%1'' \<and>
   map len (dict_values (fst (read_paramfile params_toml))) = [1, 3, 2, 1, 3, 5, 10] \<and>
   fst (get_array_argument (\<lambda>kw name rest. Inl ValueError) ''0-{count}'' params_toml) =
     Inr ''0-899'' \<and>
   fst (get_array_argument (\<lambda>kw name rest. Inl ValueError) ''0-{count}%10'' params_toml) =
     Inr ''0-899%10''"
proof -
  have s: "map len (dict_values (fst (read_paramfile params_toml))) = [1, 3, 2, 1, 3, 5, 10]"
    by (simp add: read_paramfile_params_toml params_expected_def dict_values_def len_def)
  have p: "list_all (\<lambda>n. n = ''count'')
      (placeholders [Literal ''50-'', Placeholder ''count'', Literal ''%1''])"
    by simp
  have t: "template_text [Literal ''50-'', Placeholder ''count'', Literal ''%1''] = ''50-{count}%1''"
    by simp
  note w = get_array_argument_range [of params_toml 900
      "[Literal ''50-'', Placeholder ''count'', Literal ''%1'']" "\<lambda>kw name rest. Inl ValueError"]
  from w s have c: "get_count (fst (read_paramfile params_toml)) = Inr 900" by blast
  from w c p have "fst (get_array_argument (\<lambda>kw name rest. Inl ValueError)
      (template_text [Literal ''50-'', Placeholder ''count'', Literal ''%1'']) params_toml) =
     Inr (substitute_pieces (\<lambda>n. str_int (900 - 1))
       [Literal ''50-'', Placeholder ''count'', Literal ''%1''])"
    by blast
  then have r: "fst (get_array_argument (\<lambda>kw name rest. Inl ValueError) ''50-{count}%1'' params_toml) =
     Inr ''50-899%1''"
    by (simp add: str_int_899)
  from w s have "fst (get_array_argument (\<lambda>kw name rest. Inl ValueError) ''0-{count}'' params_toml) =
       Inr ''0-899'' \<and>
     fst (get_array_argument (\<lambda>kw name rest. Inl ValueError) ''0-{count}%10'' params_toml) =
       Inr ''0-899%10''"
    by blast
  with c p t r s show ?thesis by simp
qed

lemma prod_list_len_zero: "[] \<in> set xss \<Longrightarrow> prod_list (map len xss) = 0"
  by (induction xss) (auto simp: len_def)

text \<open>
  Claim C10. When a list of the validated parameter set is empty, the count is 0, the
  array argument is the template formatted with \<^verbatim>\<open>count\<close> set to \<open>- 1\<close>, and the template
  \<^verbatim>\<open>0-{count}\<close> gives \<^verbatim>\<open>0--1\<close> without an error.
\<close>

theorem get_array_argument_empty_list:
  "[] \<in> set (dict_values (fst (read_paramfile toml_dict))) \<Longrightarrow>
     get_count (fst (read_paramfile toml_dict)) = Inr 0 \<and>
     get_array_argument extended template toml_dict =
       (format_map str_int extended template [(''count'', - 1)], snd (read_paramfile toml_dict)) \<and>
     fst (get_array_argument extended ''0-{count}'' toml_dict) = Inr ''0--1''"
proof -
  assume e: "[] \<in> set (dict_values (fst (read_paramfile toml_dict)))"
  then have c: "get_count (fst (read_paramfile toml_dict)) = Inr 0"
    by (simp add: get_count_def count_product_prod_list prod_list_len_zero)
  have f: "get_array_argument extended t toml_dict =
       (format_map str_int extended t [(''count'', - 1)], snd (read_paramfile toml_dict))" for t
    using get_array_argument_format [OF c, of extended t] by simp
  have "fst (get_array_argument extended ''0-{count}'' toml_dict) = Inr ''0--1''"
    by (simp only: f format_default_template fst_conv) (simp add: str_int_minus_1)
  with c f show ?thesis by simp
qed

theorem get_array_argument_empty_list_witness:
  "[] \<in> set (dict_values (fst (read_paramfile
      [(StrKey ''dataset'', ListVal [SStr ''SYNTHETIC'']),
       (StrKey ''repeat'', ListVal ([]::scalar list)),
       (StrKey ''val_set'', ListVal [SInt 0, SInt 1])]))) \<and>
   get_count (fst (read_paramfile
      [(StrKey ''dataset'', ListVal [SStr ''SYNTHETIC'']),
       (StrKey ''repeat'', ListVal ([]::scalar list)),
       (StrKey ''val_set'', ListVal [SInt 0, SInt 1])])) = Inr 0 \<and>
   get_array_argument (\<lambda>kw name rest. Inl ValueError) ''0-{count}''
      [(StrKey ''dataset'', ListVal [SStr ''SYNTHETIC'']),
       (StrKey ''repeat'', ListVal ([]::scalar list)),
       (StrKey ''val_set'', ListVal [SInt 0, SInt 1])] =
     (Inr ''0--1'', ([]::(unit, scalar, unit) param_warning list))"
proof -
  have e: "[] \<in> set (dict_values (fst (read_paramfile
      [(StrKey ''dataset'', ListVal [SStr ''SYNTHETIC'']),
       (StrKey ''repeat'', ListVal ([]::scalar list)),
       (StrKey ''val_set'', ListVal [SInt 0, SInt 1])]
      :: (string, scalar list) dict \<times> (unit, scalar, unit) param_warning list)))"
    by (simp add: read_paramfile_def validate_param_dict_def dict_values_def)
  from get_array_argument_empty_list [OF e, of "\<lambda>kw name rest. Inl ValueError" "''0-{count}''"] e
  show ?thesis
    by (simp add: read_paramfile_def validate_param_dict_def format_default_template
        str_int_minus_1 prod_eq_iff)
qed

end
